theory Spec2Isabelle
  imports Main
begin

section \<open>The gRPC AsyncIO transport of the asset service\<close>

text \<open>
  The class \<open>AssetServiceGrpcAsyncIOTransport\<close> of
  \<open>google/cloud/asset_v1/services/asset_service/transports/grpc_asyncio.py\<close> is plumbing
  over libraries it imports: the RPC helper (\<open>grpc_helpers_async.create_channel\<close>), the
  channel object (\<open>unary_unary\<close>), the operations client, the SSL credential helpers and
  the constructor of its base class. None of these is part of the file, so each one
  is a parameter of the model (the record \<open>env\<close> below). What the file itself does
  (which of them it calls, in which order, with which arguments, and what it stores on
  the instance) is translated function by function.
\<close>

subsection \<open>Values of the libraries\<close>

text \<open>
  Objects made by the libraries are opaque handles. An exception is an opaque value
  too; the transport never inspects one.
\<close>

type_synonym exn = string
type_synonym bytes = string

datatype channel = Channel nat
datatype stub = Stub nat
datatype ops_client = OpsClient nat
datatype ssl_credentials = SslCreds nat
datatype cert_source = CertSource nat

text \<open>
  The \<open>credentials\<close> parameter holds \<open>None\<close> by default, a credentials object when the
  caller passes one, and \<open>False\<close> after line 143 of the constructor.
\<close>

datatype creds = CredNone | CredFalse | Credentials nat

text \<open>Values that may travel in \<open>**kwargs\<close>.\<close>

datatype pyvalue = PyNone | PyStr string | PySslCredentials ssl_credentials

text \<open>
  The message classes whose \<open>serialize\<close>, \<open>deserialize\<close> and \<open>FromString\<close> functions are
  handed to the channel. A codec names one such function.
\<close>

datatype msg =
    ExportAssetsRequest
  | BatchGetAssetsHistoryRequest | BatchGetAssetsHistoryResponse
  | CreateFeedRequest | GetFeedRequest
  | ListFeedsRequest | ListFeedsResponse
  | UpdateFeedRequest | DeleteFeedRequest
  | SearchAllResourcesRequest | SearchAllResourcesResponse
  | SearchAllIamPoliciesRequest | SearchAllIamPoliciesResponse
  | Feed | Operation | Empty

datatype codec = Serialize msg | Deserialize msg | FromString msg

subsection \<open>Arguments\<close>

text \<open>The parameters of the class method \<open>create_channel\<close> (lines 53 to 61).\<close>

record chan_args =
  ca_host :: string
  ca_credentials :: creds
  ca_credentials_file :: "string option"
  ca_scopes :: "string list option"
  ca_quota_project_id :: "string option"
  ca_kwargs :: "(string \<times> pyvalue) list"

text \<open>What \<open>grpc_helpers_async.create_channel\<close> receives (lines 84 to 91).\<close>

record helper_args =
  ha_host :: string
  ha_credentials :: creds
  ha_credentials_file :: "string option"
  ha_scopes :: "string list"
  ha_quota_project_id :: "string option"
  ha_kwargs :: "(string \<times> pyvalue) list"

text \<open>The keyword-only parameters of \<open>__init__\<close> (lines 93 to 104).\<close>

record init_args =
  ia_host :: string
  ia_credentials :: creds
  ia_credentials_file :: "string option"
  ia_scopes :: "string list option"
  ia_channel :: "channel option"
  ia_api_mtls_endpoint :: "string option"
  ia_client_cert_source :: "cert_source option"
  ia_quota_project_id :: "string option"

text \<open>What the base constructor receives (lines 175 to 181).\<close>

record base_args =
  ba_host :: string
  ba_credentials :: creds
  ba_credentials_file :: "string option"
  ba_scopes :: "string list"
  ba_quota_project_id :: "string option"

text \<open>
  The attributes the base constructor leaves on the instance and this file reads back
  (\<open>self._host\<close> and \<open>self._credentials\<close>, line 196).
\<close>

record base_fields =
  bf_host :: string
  bf_credentials :: creds

subsection \<open>Calls into the libraries\<close>

text \<open>
  Every call into a library is recorded, with its arguments and its outcome
  (\<open>Inl\<close> an exception, \<open>Inr\<close> the value returned), in the order the calls happen.
\<close>

datatype event =
    EvHelperCreateChannel helper_args "exn + channel"
  | EvUnaryUnary channel string codec codec "exn + stub"
  | EvOperationsAsyncClient channel "exn + ops_client"
  | EvClientCertSource cert_source "exn + bytes \<times> bytes"
  | EvSslChannelCredentials bytes bytes "exn + ssl_credentials"
  | EvSslCredentials "exn + ssl_credentials"
  | EvBaseInit base_args "exn + base_fields"

text \<open>
  The libraries are arbitrary: the outcome of a call may depend on its arguments and
  on everything that happened before (the history of calls), so that two calls with the
  same arguments may return different objects, or fail once and succeed later.
  \<open>AUTH_SCOPES\<close> is the class attribute inherited from the base class.
\<close>

record env =
  AUTH_SCOPES :: "string list"
  helper_create_channel :: "event list \<Rightarrow> helper_args \<Rightarrow> exn + channel"
  unary_unary :: "event list \<Rightarrow> channel \<Rightarrow> string \<Rightarrow> codec \<Rightarrow> codec \<Rightarrow> exn + stub"
  OperationsAsyncClient :: "event list \<Rightarrow> channel \<Rightarrow> exn + ops_client"
  client_cert_source_call :: "event list \<Rightarrow> cert_source \<Rightarrow> exn + bytes \<times> bytes"
  ssl_channel_credentials :: "event list \<Rightarrow> bytes \<Rightarrow> bytes \<Rightarrow> exn + ssl_credentials"
  SslCredentials :: "event list \<Rightarrow> exn + ssl_credentials"
  base_init :: "event list \<Rightarrow> base_args \<Rightarrow> exn + base_fields"

subsection \<open>The instance\<close>

text \<open>
  \<open>self_grpc_channel\<close> is \<open>None\<close> while the instance has no attribute \<open>_grpc_channel\<close>
  (the test of line 194), \<open>self_operations_client\<close> is \<open>None\<close> while
  \<open>"operations_client"\<close> is not a key of \<open>self.__dict__\<close> (line 210), and \<open>self_stubs\<close> is
  the dictionary \<open>self._stubs\<close>.
\<close>

record transport =
  self_host :: string
  self_credentials :: creds
  self_grpc_channel :: "channel option"
  self_operations_client :: "ops_client option"
  self_stubs :: "string \<rightharpoonup> stub"

type_synonym state = "transport \<times> event list"

subsection \<open>Python's truth values\<close>

text \<open>
  \<open>scopes or cls.AUTH_SCOPES\<close>: \<open>None\<close> and the empty sequence are false.
\<close>

definition scopes_or :: "string list option \<Rightarrow> string list \<Rightarrow> string list" where
  "scopes_or scopes dflt =
     (case scopes of None \<Rightarrow> dflt | Some xs \<Rightarrow> (if xs = [] then dflt else xs))"

text \<open>\<open>elif api_mtls_endpoint\<close>: \<open>None\<close> and the empty string are false.\<close>

definition truthy_str :: "string option \<Rightarrow> bool" where
  "truthy_str s = (case s of None \<Rightarrow> False | Some x \<Rightarrow> x \<noteq> [])"

subsection \<open>create_channel\<close>

definition create_channel :: "env \<Rightarrow> chan_args \<Rightarrow> event list \<Rightarrow> (exn + channel) \<times> event list" where
  "create_channel env a tr =
     (let scopes = scopes_or (ca_scopes a) (AUTH_SCOPES env);
          ha = \<lparr> ha_host = ca_host a,
                 ha_credentials = ca_credentials a,
                 ha_credentials_file = ca_credentials_file a,
                 ha_scopes = scopes,
                 ha_quota_project_id = ca_quota_project_id a,
                 ha_kwargs = ca_kwargs a \<rparr>;
          r = helper_create_channel env tr ha
      in (r, tr @ [EvHelperCreateChannel ha r]))"

subsection \<open>The constructor\<close>

text \<open>
  Lines 174 to 183: the base constructor runs with the (possibly replaced) host and
  credentials, then \<open>self._stubs = {}\<close>. The argument \<open>chan\<close> is what the branches above
  left in \<open>self._grpc_channel\<close>.
\<close>

definition super_init ::
  "env \<Rightarrow> init_args \<Rightarrow> string \<Rightarrow> creds \<Rightarrow> channel option \<Rightarrow> event list
     \<Rightarrow> (exn + transport) \<times> event list" where
  "super_init env a host credentials chan tr =
     (let ba = \<lparr> ba_host = host,
                 ba_credentials = credentials,
                 ba_credentials_file = ia_credentials_file a,
                 ba_scopes = scopes_or (ia_scopes a) (AUTH_SCOPES env),
                 ba_quota_project_id = ia_quota_project_id a \<rparr>;
          r = base_init env tr ba;
          tr' = tr @ [EvBaseInit ba r]
      in case r of
           Inl e \<Rightarrow> (Inl e, tr')
         | Inr bf \<Rightarrow>
             (Inr \<lparr> self_host = bf_host bf,
                    self_credentials = bf_credentials bf,
                    self_grpc_channel = chan,
                    self_operations_client = None,
                    self_stubs = Map.empty \<rparr>, tr'))"

text \<open>
  Lines 156 to 162: the SSL credentials come from the callback when there is one, and
  from the application default otherwise.
\<close>

definition make_ssl_credentials ::
  "env \<Rightarrow> cert_source option \<Rightarrow> event list \<Rightarrow> (exn + ssl_credentials) \<times> event list" where
  "make_ssl_credentials env src tr =
     (case src of
        Some f \<Rightarrow>
          (let r = client_cert_source_call env tr f;
               tr1 = tr @ [EvClientCertSource f r]
           in case r of
                Inl e \<Rightarrow> (Inl e, tr1)
              | Inr (cert, key) \<Rightarrow>
                  (let r2 = ssl_channel_credentials env tr1 cert key
                   in (r2, tr1 @ [EvSslChannelCredentials cert key r2])))
      | None \<Rightarrow>
          (let r = SslCredentials env tr in (r, tr @ [EvSslCredentials r])))"

text \<open>
  \<open>__init__\<close>, lines 140 to 183. A channel object is true; an endpoint is true when it is
  a non-empty string. An exception leaves no instance behind.
\<close>

definition init :: "env \<Rightarrow> init_args \<Rightarrow> event list \<Rightarrow> (exn + transport) \<times> event list" where
  "init env a tr =
     (case ia_channel a of
        Some channel \<Rightarrow> super_init env a (ia_host a) CredFalse (Some channel) tr
      | None \<Rightarrow>
          if truthy_str (ia_api_mtls_endpoint a) then
            (let api_mtls_endpoint = the (ia_api_mtls_endpoint a);
                 host = (if CHR '':'' \<in> set api_mtls_endpoint then api_mtls_endpoint
                         else api_mtls_endpoint @ '':443'')
             in case make_ssl_credentials env (ia_client_cert_source a) tr of
                  (Inl e, tr1) \<Rightarrow> (Inl e, tr1)
                | (Inr ssl, tr1) \<Rightarrow>
                    (case create_channel env
                            \<lparr> ca_host = host,
                              ca_credentials = ia_credentials a,
                              ca_credentials_file = ia_credentials_file a,
                              ca_scopes = Some (scopes_or (ia_scopes a) (AUTH_SCOPES env)),
                              ca_quota_project_id = ia_quota_project_id a,
                              ca_kwargs = [(''ssl_credentials'', PySslCredentials ssl)] \<rparr> tr1 of
                       (Inl e, tr2) \<Rightarrow> (Inl e, tr2)
                     | (Inr ch, tr2) \<Rightarrow>
                         super_init env a host (ia_credentials a) (Some ch) tr2))
          else super_init env a (ia_host a) (ia_credentials a) None tr)"

subsection \<open>The cached channel and the operations client\<close>

definition grpc_channel :: "env \<Rightarrow> state \<Rightarrow> (exn + channel) \<times> state" where
  "grpc_channel env s =
     (case s of (t, tr) \<Rightarrow>
        (case self_grpc_channel t of
           Some ch \<Rightarrow> (Inr ch, (t, tr))
         | None \<Rightarrow>
             (case create_channel env
                     \<lparr> ca_host = self_host t,
                       ca_credentials = self_credentials t,
                       ca_credentials_file = None,
                       ca_scopes = None,
                       ca_quota_project_id = None,
                       ca_kwargs = [] \<rparr> tr of
                (Inl e, tr') \<Rightarrow> (Inl e, (t, tr'))
              | (Inr ch, tr') \<Rightarrow> (Inr ch, (t\<lparr>self_grpc_channel := Some ch\<rparr>, tr')))))"

definition operations_client :: "env \<Rightarrow> state \<Rightarrow> (exn + ops_client) \<times> state" where
  "operations_client env s =
     (case self_operations_client (fst s) of
        Some c \<Rightarrow> (Inr c, s)
      | None \<Rightarrow>
          (case grpc_channel env s of
             (Inl e, s') \<Rightarrow> (Inl e, s')
           | (Inr ch, (t', tr')) \<Rightarrow>
               (let r = OperationsAsyncClient env tr' ch;
                    tr'' = tr' @ [EvOperationsAsyncClient ch r]
                in case r of
                     Inl e \<Rightarrow> (Inl e, (t', tr''))
                   | Inr c \<Rightarrow> (Inr c, (t'\<lparr>self_operations_client := Some c\<rparr>, tr'')))))"

subsection \<open>The RPC method properties\<close>

text \<open>
  The nine properties share one body, up to the key of the stub table, the path and
  the two codecs: look the key up; when it is absent, take the channel from the
  \<open>grpc_channel\<close> property, ask it for a \<open>unary_unary\<close> callable and store that under
  the key; return what the table holds.
\<close>

definition stub_property ::
  "string \<Rightarrow> string \<Rightarrow> codec \<Rightarrow> codec \<Rightarrow> env \<Rightarrow> state \<Rightarrow> (exn + stub) \<times> state" where
  "stub_property name path request_serializer response_deserializer env s =
     (case self_stubs (fst s) name of
        Some st \<Rightarrow> (Inr st, s)
      | None \<Rightarrow>
          (case grpc_channel env s of
             (Inl e, s') \<Rightarrow> (Inl e, s')
           | (Inr ch, (t', tr')) \<Rightarrow>
               (let r = unary_unary env tr' ch path request_serializer response_deserializer;
                    tr'' = tr' @ [EvUnaryUnary ch path request_serializer response_deserializer r]
                in case r of
                     Inl e \<Rightarrow> (Inl e, (t', tr''))
                   | Inr st \<Rightarrow> (Inr st, (t'\<lparr>self_stubs := (self_stubs t')(name \<mapsto> st)\<rparr>, tr'')))))"

definition export_assets :: "env \<Rightarrow> state \<Rightarrow> (exn + stub) \<times> state" where
  "export_assets =
     stub_property ''export_assets''
       ''/google.cloud.asset.v1.AssetService/ExportAssets''
       (Serialize ExportAssetsRequest) (FromString Operation)"

definition batch_get_assets_history :: "env \<Rightarrow> state \<Rightarrow> (exn + stub) \<times> state" where
  "batch_get_assets_history =
     stub_property ''batch_get_assets_history''
       ''/google.cloud.asset.v1.AssetService/BatchGetAssetsHistory''
       (Serialize BatchGetAssetsHistoryRequest) (Deserialize BatchGetAssetsHistoryResponse)"

definition create_feed :: "env \<Rightarrow> state \<Rightarrow> (exn + stub) \<times> state" where
  "create_feed =
     stub_property ''create_feed''
       ''/google.cloud.asset.v1.AssetService/CreateFeed''
       (Serialize CreateFeedRequest) (Deserialize Feed)"

definition get_feed :: "env \<Rightarrow> state \<Rightarrow> (exn + stub) \<times> state" where
  "get_feed =
     stub_property ''get_feed''
       ''/google.cloud.asset.v1.AssetService/GetFeed''
       (Serialize GetFeedRequest) (Deserialize Feed)"

definition list_feeds :: "env \<Rightarrow> state \<Rightarrow> (exn + stub) \<times> state" where
  "list_feeds =
     stub_property ''list_feeds''
       ''/google.cloud.asset.v1.AssetService/ListFeeds''
       (Serialize ListFeedsRequest) (Deserialize ListFeedsResponse)"

definition update_feed :: "env \<Rightarrow> state \<Rightarrow> (exn + stub) \<times> state" where
  "update_feed =
     stub_property ''update_feed''
       ''/google.cloud.asset.v1.AssetService/UpdateFeed''
       (Serialize UpdateFeedRequest) (Deserialize Feed)"

definition delete_feed :: "env \<Rightarrow> state \<Rightarrow> (exn + stub) \<times> state" where
  "delete_feed =
     stub_property ''delete_feed''
       ''/google.cloud.asset.v1.AssetService/DeleteFeed''
       (Serialize DeleteFeedRequest) (FromString Empty)"

definition search_all_resources :: "env \<Rightarrow> state \<Rightarrow> (exn + stub) \<times> state" where
  "search_all_resources =
     stub_property ''search_all_resources''
       ''/google.cloud.asset.v1.AssetService/SearchAllResources''
       (Serialize SearchAllResourcesRequest) (Deserialize SearchAllResourcesResponse)"

definition search_all_iam_policies :: "env \<Rightarrow> state \<Rightarrow> (exn + stub) \<times> state" where
  "search_all_iam_policies =
     stub_property ''search_all_iam_policies''
       ''/google.cloud.asset.v1.AssetService/SearchAllIamPolicies''
       (Serialize SearchAllIamPoliciesRequest) (Deserialize SearchAllIamPoliciesResponse)"

text \<open>
  The properties of the class that hand out RPC stubs, by attribute name, in the order
  of the source.
\<close>

definition rpc_properties :: "(string \<times> (env \<Rightarrow> state \<Rightarrow> (exn + stub) \<times> state)) list" where
  "rpc_properties =
     [(''export_assets'', export_assets),
      (''batch_get_assets_history'', batch_get_assets_history),
      (''create_feed'', create_feed),
      (''get_feed'', get_feed),
      (''list_feeds'', list_feeds),
      (''update_feed'', update_feed),
      (''delete_feed'', delete_feed),
      (''search_all_resources'', search_all_resources),
      (''search_all_iam_policies'', search_all_iam_policies)]"

subsection \<open>Clients of an instance\<close>

text \<open>
  What a client can do with an instance: read \<open>grpc_channel\<close>, read
  \<open>operations_client\<close>, or read an attribute by name, which reaches one of the RPC
  properties above when the name is theirs. A name that is none of them reaches
  nothing of this file and leaves the instance as it is. \<open>run\<close> performs a sequence of
  such reads and keeps the instance and the history; the values read are dropped.
\<close>

datatype access = AccGrpcChannel | AccOperationsClient | AccRpc string

definition access_step :: "env \<Rightarrow> access \<Rightarrow> state \<Rightarrow> state" where
  "access_step env acc s =
     (case acc of
        AccGrpcChannel \<Rightarrow> snd (grpc_channel env s)
      | AccOperationsClient \<Rightarrow> snd (operations_client env s)
      | AccRpc name \<Rightarrow>
          (case map_of rpc_properties name of
             Some prop \<Rightarrow> snd (prop env s)
           | None \<Rightarrow> s))"

fun run :: "env \<Rightarrow> access list \<Rightarrow> state \<Rightarrow> state" where
  "run env [] s = s"
| "run env (acc # accs) s = run env accs (access_step env acc s)"

subsection \<open>Reading the history\<close>

text \<open>The exception a recorded call ended with, if it did.\<close>

definition outcome_error :: "exn + 'a \<Rightarrow> exn option" where
  "outcome_error r = (case r of Inl e \<Rightarrow> Some e | Inr v \<Rightarrow> None)"

fun event_error :: "event \<Rightarrow> exn option" where
  "event_error (EvHelperCreateChannel ha r) = outcome_error r"
| "event_error (EvUnaryUnary ch path ser deser r) = outcome_error r"
| "event_error (EvOperationsAsyncClient ch r) = outcome_error r"
| "event_error (EvClientCertSource f r) = outcome_error r"
| "event_error (EvSslChannelCredentials cert key r) = outcome_error r"
| "event_error (EvSslCredentials r) = outcome_error r"
| "event_error (EvBaseInit ba r) = outcome_error r"

text \<open>The exceptions raised by the calls of a history, in order.\<close>

definition raised :: "event list \<Rightarrow> exn list" where
  "raised evs = List.map_filter event_error evs"

text \<open>
  An operation that started at history \<open>tr\<close>, ended at history \<open>tr'\<close> and gave \<open>r\<close>
  surfaces the libraries' errors unchanged when: the history only grew; if the
  operation raised \<open>e\<close>, then exactly one of its library calls failed, that call was
  its last one, and it failed with \<open>e\<close>; and if the operation returned, none of its
  library calls failed.
\<close>

definition surfaces :: "event list \<Rightarrow> exn + 'a \<Rightarrow> event list \<Rightarrow> bool" where
  "surfaces tr r tr' =
     (take (length tr) tr' = tr \<and>
      (let new = drop (length tr) tr' in
         case r of
           Inl e \<Rightarrow> raised new = [e] \<and> new \<noteq> [] \<and> event_error (last new) = Some e
         | Inr v \<Rightarrow> raised new = []))"

text \<open>A channel that the RPC helper has handed out.\<close>

fun channel_created :: "event \<Rightarrow> bool" where
  "channel_created (EvHelperCreateChannel ha (Inr ch)) = True"
| "channel_created ev = False"

text \<open>
  The path and codecs under which each attribute name asks for its stub, collected from
  the bodies of the nine properties.
\<close>

definition rpc_wire :: "(string \<times> string \<times> codec \<times> codec) list" where
  "rpc_wire =
     [(''export_assets'',
         ''/google.cloud.asset.v1.AssetService/ExportAssets'',
         Serialize ExportAssetsRequest, FromString Operation),
      (''batch_get_assets_history'',
         ''/google.cloud.asset.v1.AssetService/BatchGetAssetsHistory'',
         Serialize BatchGetAssetsHistoryRequest, Deserialize BatchGetAssetsHistoryResponse),
      (''create_feed'',
         ''/google.cloud.asset.v1.AssetService/CreateFeed'',
         Serialize CreateFeedRequest, Deserialize Feed),
      (''get_feed'',
         ''/google.cloud.asset.v1.AssetService/GetFeed'',
         Serialize GetFeedRequest, Deserialize Feed),
      (''list_feeds'',
         ''/google.cloud.asset.v1.AssetService/ListFeeds'',
         Serialize ListFeedsRequest, Deserialize ListFeedsResponse),
      (''update_feed'',
         ''/google.cloud.asset.v1.AssetService/UpdateFeed'',
         Serialize UpdateFeedRequest, Deserialize Feed),
      (''delete_feed'',
         ''/google.cloud.asset.v1.AssetService/DeleteFeed'',
         Serialize DeleteFeedRequest, FromString Empty),
      (''search_all_resources'',
         ''/google.cloud.asset.v1.AssetService/SearchAllResources'',
         Serialize SearchAllResourcesRequest, Deserialize SearchAllResourcesResponse),
      (''search_all_iam_policies'',
         ''/google.cloud.asset.v1.AssetService/SearchAllIamPolicies'',
         Serialize SearchAllIamPoliciesRequest, Deserialize SearchAllIamPoliciesResponse)]"



subsection \<open>Invariants of an instance\<close>

text \<open>
  What an instance has cached it keeps: from \<open>s\<close> to \<open>s'\<close> the channel, the operations
  client and every stub that \<open>s\<close> holds are still there, unchanged, and the history has
  only been extended.
\<close>

definition grows :: "state \<Rightarrow> state \<Rightarrow> bool" where
  "grows s s' =
     ((\<forall>ch. self_grpc_channel (fst s) = Some ch \<longrightarrow> self_grpc_channel (fst s') = Some ch) \<and>
      (\<forall>c. self_operations_client (fst s) = Some c \<longrightarrow> self_operations_client (fst s') = Some c) \<and>
      (\<forall>name st. self_stubs (fst s) name = Some st \<longrightarrow> self_stubs (fst s') name = Some st) \<and>
      (\<exists>new. snd s' = snd s @ new))"

text \<open>
  Since position \<open>n\<close> of the history the helper has handed out at most one channel, and
  none while the instance holds no channel.
\<close>

definition one_channel :: "nat \<Rightarrow> state \<Rightarrow> bool" where
  "one_channel n s =
     (length (filter channel_created (drop n (snd s))) \<le> 1 \<and>
      (self_grpc_channel (fst s) = None \<longrightarrow> filter channel_created (drop n (snd s)) = []))"

subsection \<open>Sample libraries and arguments\<close>

text \<open>
  Libraries in which every call succeeds and hands out a fresh object (numbered by the
  length of the history), and a base constructor that stores what it is given.
\<close>

definition demo_env :: env where
  "demo_env =
     \<lparr> AUTH_SCOPES = [''https://www.googleapis.com/auth/cloud-platform''],
       helper_create_channel = (\<lambda>tr ha. Inr (Channel (length tr))),
       unary_unary = (\<lambda>tr ch path ser deser. Inr (Stub (length tr))),
       OperationsAsyncClient = (\<lambda>tr ch. Inr (OpsClient (length tr))),
       client_cert_source_call = (\<lambda>tr f. Inr (''cert'', ''key'')),
       ssl_channel_credentials = (\<lambda>tr cert key. Inr (SslCreds (length tr))),
       SslCredentials = (\<lambda>tr. Inr (SslCreds (length tr))),
       base_init = (\<lambda>tr ba. Inr \<lparr> bf_host = ba_host ba, bf_credentials = ba_credentials ba \<rparr>) \<rparr>"

text \<open>The same libraries with a channel whose \<open>unary_unary\<close> always raises.\<close>

definition failing_env :: env where
  "failing_env = demo_env \<lparr> unary_unary := (\<lambda>tr ch path ser deser. Inl ''UNAVAILABLE'') \<rparr>"

definition demo_args :: init_args where
  "demo_args =
     \<lparr> ia_host = ''cloudasset.googleapis.com'',
       ia_credentials = Credentials 7,
       ia_credentials_file = Some ''key.json'',
       ia_scopes = Some [''scope-a''],
       ia_channel = None,
       ia_api_mtls_endpoint = None,
       ia_client_cert_source = None,
       ia_quota_project_id = Some ''proj'' \<rparr>"

definition demo_chan_args :: chan_args where
  "demo_chan_args =
     \<lparr> ca_host = ''cloudasset.googleapis.com'',
       ca_credentials = Credentials 7,
       ca_credentials_file = None,
       ca_scopes = Some [],
       ca_quota_project_id = None,
       ca_kwargs = [(''compression'', PyStr ''gzip'')] \<rparr>"

text \<open>An instance as the constructor leaves it when it is given only defaults.\<close>

definition demo_transport :: transport where
  "demo_transport =
     \<lparr> self_host = ''cloudasset.googleapis.com'',
       self_credentials = Credentials 7,
       self_grpc_channel = None,
       self_operations_client = None,
       self_stubs = Map.empty \<rparr>"

text \<open>What the constructor records when it is given \<open>demo_args\<close>.\<close>

definition demo_history :: "event list" where
  "demo_history =
     [EvBaseInit \<lparr> ba_host = ''cloudasset.googleapis.com'',
                    ba_credentials = Credentials 7,
                    ba_credentials_file = Some ''key.json'',
                    ba_scopes = [''scope-a''],
                    ba_quota_project_id = Some ''proj'' \<rparr>
         (Inr \<lparr> bf_host = ''cloudasset.googleapis.com'', bf_credentials = Credentials 7 \<rparr>)]"




section \<open>Properties\<close>

subsection \<open>create_channel\<close>

text \<open>
  Claim C5. \<open>create_channel\<close> makes exactly one library call, to
  \<open>grpc_helpers_async.create_channel\<close>, with the host, credentials, credentials file,
  quota project and extra keyword arguments it was given, and returns that call's
  outcome. The one thing it changes is \<open>scopes\<close>: when \<open>scopes\<close> is \<open>None\<close> or empty the
  helper receives the class's \<open>AUTH_SCOPES\<close>, and otherwise the scopes given.
\<close>

theorem create_channel_delegates:
  "create_channel env a tr =
     (let ha = \<lparr> ha_host = ca_host a,
                 ha_credentials = ca_credentials a,
                 ha_credentials_file = ca_credentials_file a,
                 ha_scopes = (if ca_scopes a = None \<or> ca_scopes a = Some []
                              then AUTH_SCOPES env else the (ca_scopes a)),
                 ha_quota_project_id = ca_quota_project_id a,
                 ha_kwargs = ca_kwargs a \<rparr>;
          r = helper_create_channel env tr ha
      in (r, tr @ [EvHelperCreateChannel ha r]))"
  by (simp add: create_channel_def scopes_or_def Let_def split: option.splits)

theorem create_channel_delegates_witness:
  "create_channel demo_env demo_chan_args [] =
     (Inr (Channel 0),
      [EvHelperCreateChannel
         \<lparr> ha_host = ''cloudasset.googleapis.com'',
           ha_credentials = Credentials 7,
           ha_credentials_file = None,
           ha_scopes = [''https://www.googleapis.com/auth/cloud-platform''],
           ha_quota_project_id = None,
           ha_kwargs = [(''compression'', PyStr ''gzip'')] \<rparr> (Inr (Channel 0))])"
  using create_channel_delegates [of demo_env demo_chan_args "[]"]
  by (simp add: demo_env_def demo_chan_args_def Let_def)

subsection \<open>What an access leaves in place\<close>

text \<open>
  The three kinds of access split into a hit (the value is cached and handed back, with
  no change at all) and a miss (the value is made by the libraries and stored). Each
  access only adds to what the instance holds.
\<close>

lemma grows_refl: "grows s s"
  by (simp add: grows_def)

lemma grows_trans: "grows s s1 \<Longrightarrow> grows s1 s2 \<Longrightarrow> grows s s2"
  unfolding grows_def by (elim conjE exE) (simp)

lemma create_channel_trace:
  "create_channel env a tr = (r, tr') \<Longrightarrow> \<exists>ha. tr' = tr @ [EvHelperCreateChannel ha r]"
  by (auto simp: create_channel_def Let_def)

lemma grpc_channel_hit:
  "self_grpc_channel (fst s) = Some ch \<Longrightarrow> grpc_channel env s = (Inr ch, s)"
  by (cases s) (simp add: grpc_channel_def)

lemma grpc_channel_miss:
  assumes "self_grpc_channel t = None"
  shows "\<exists>ha r. grpc_channel env (t, tr) =
           (r, (case r of Inl e \<Rightarrow> t | Inr ch \<Rightarrow> t\<lparr>self_grpc_channel := Some ch\<rparr>),
               tr @ [EvHelperCreateChannel ha r])"
  using assms
  by (auto simp: grpc_channel_def create_channel_def Let_def split: sum.splits)

lemma grpc_channel_grows: "grows s (snd (grpc_channel env s))"
proof (cases s)
  case (Pair t tr)
  show ?thesis
  proof (cases "self_grpc_channel t")
    case None
    from grpc_channel_miss [OF None, of env tr] obtain ha r where
      "grpc_channel env (t, tr) =
         (r, (case r of Inl e \<Rightarrow> t | Inr ch \<Rightarrow> t\<lparr>self_grpc_channel := Some ch\<rparr>),
             tr @ [EvHelperCreateChannel ha r])" by blast
    with Pair None show ?thesis by (cases r) (simp_all add: grows_def)
  next
    case (Some ch)
    with Pair show ?thesis by (simp add: grpc_channel_hit grows_refl)
  qed
qed

lemma grpc_channel_stores:
  "grpc_channel env s = (Inr ch, s') \<Longrightarrow> self_grpc_channel (fst s') = Some ch"
  by (cases s) (auto simp: grpc_channel_def split: option.splits sum.splits prod.splits)

lemma grpc_channel_frame:
  "grpc_channel env s = (r, s') \<Longrightarrow>
     self_stubs (fst s') = self_stubs (fst s) \<and>
     self_operations_client (fst s') = self_operations_client (fst s)"
  by (cases s) (auto simp: grpc_channel_def split: option.splits sum.splits prod.splits)

lemma stub_property_hit:
  "self_stubs (fst s) name = Some st \<Longrightarrow> stub_property name path ser deser env s = (Inr st, s)"
  by (simp add: stub_property_def)

lemma stub_property_miss:
  assumes "self_stubs (fst s) name = None"
  shows "stub_property name path ser deser env s =
     (case grpc_channel env s of
        (Inl e, s') \<Rightarrow> (Inl e, s')
      | (Inr ch, (t', tr')) \<Rightarrow>
          (case unary_unary env tr' ch path ser deser of
             Inl e \<Rightarrow> (Inl e, (t', tr' @ [EvUnaryUnary ch path ser deser (Inl e)]))
           | Inr st \<Rightarrow> (Inr st, (t'\<lparr>self_stubs := (self_stubs t')(name \<mapsto> st)\<rparr>,
                                 tr' @ [EvUnaryUnary ch path ser deser (Inr st)]))))"
  using assms by (simp add: stub_property_def Let_def split: prod.splits sum.splits)

lemma stub_property_grows: "grows s (snd (stub_property name path ser deser env s))"
proof (cases "self_stubs (fst s) name")
  case (Some st)
  then show ?thesis by (simp add: stub_property_hit grows_refl)
next
  case None
  obtain r t' tr' where g: "grpc_channel env s = (r, (t', tr'))"
    by (metis prod.exhaust)
  have gr: "grows s (t', tr')" using grpc_channel_grows [of s env] g by simp
  have fr: "self_stubs t' = self_stubs (fst s)" using grpc_channel_frame [OF g] by simp
  show ?thesis
  proof (cases r)
    case (Inl e)
    with g gr None show ?thesis by (simp add: stub_property_miss)
  next
    case (Inr ch)
    show ?thesis
    proof (cases "unary_unary env tr' ch path ser deser")
      case (Inl e)
      have "grows (t', tr') (t', tr' @ [EvUnaryUnary ch path ser deser (Inl e)])"
        by (simp add: grows_def)
      with gr have "grows s (t', tr' @ [EvUnaryUnary ch path ser deser (Inl e)])"
        by (rule grows_trans)
      with g None Inl \<open>r = Inr ch\<close> show ?thesis by (simp add: stub_property_miss)
    next
      case (Inr st)
      have "grows (t', tr') (t'\<lparr>self_stubs := (self_stubs t')(name \<mapsto> st)\<rparr>,
                             tr' @ [EvUnaryUnary ch path ser deser (Inr st)])"
        using None fr by (auto simp: grows_def)
      with gr have "grows s (t'\<lparr>self_stubs := (self_stubs t')(name \<mapsto> st)\<rparr>,
                             tr' @ [EvUnaryUnary ch path ser deser (Inr st)])"
        by (rule grows_trans)
      with g None Inr \<open>r = Inr ch\<close> show ?thesis by (simp add: stub_property_miss)
    qed
  qed
qed

lemma operations_client_hit:
  "self_operations_client (fst s) = Some c \<Longrightarrow> operations_client env s = (Inr c, s)"
  by (simp add: operations_client_def)

lemma operations_client_miss:
  assumes "self_operations_client (fst s) = None"
  shows "operations_client env s =
     (case grpc_channel env s of
        (Inl e, s') \<Rightarrow> (Inl e, s')
      | (Inr ch, (t', tr')) \<Rightarrow>
          (case OperationsAsyncClient env tr' ch of
             Inl e \<Rightarrow> (Inl e, (t', tr' @ [EvOperationsAsyncClient ch (Inl e)]))
           | Inr c \<Rightarrow> (Inr c, (t'\<lparr>self_operations_client := Some c\<rparr>,
                                tr' @ [EvOperationsAsyncClient ch (Inr c)]))))"
  using assms by (simp add: operations_client_def Let_def split: prod.splits sum.splits)

lemma operations_client_grows: "grows s (snd (operations_client env s))"
proof (cases "self_operations_client (fst s)")
  case (Some c)
  then show ?thesis by (simp add: operations_client_hit grows_refl)
next
  case None
  obtain r t' tr' where g: "grpc_channel env s = (r, (t', tr'))"
    by (metis prod.exhaust)
  have gr: "grows s (t', tr')" using grpc_channel_grows [of s env] g by simp
  have fr: "self_operations_client t' = self_operations_client (fst s)"
    using grpc_channel_frame [OF g] by simp
  show ?thesis
  proof (cases r)
    case (Inl e)
    with g gr None show ?thesis by (simp add: operations_client_miss)
  next
    case (Inr ch)
    show ?thesis
    proof (cases "OperationsAsyncClient env tr' ch")
      case (Inl e)
      have "grows (t', tr') (t', tr' @ [EvOperationsAsyncClient ch (Inl e)])"
        by (simp add: grows_def)
      with gr have "grows s (t', tr' @ [EvOperationsAsyncClient ch (Inl e)])"
        by (rule grows_trans)
      with g None Inl \<open>r = Inr ch\<close> show ?thesis by (simp add: operations_client_miss)
    next
      case (Inr c)
      have "grows (t', tr') (t'\<lparr>self_operations_client := Some c\<rparr>,
                             tr' @ [EvOperationsAsyncClient ch (Inr c)])"
        using None fr by (auto simp: grows_def)
      with gr have "grows s (t'\<lparr>self_operations_client := Some c\<rparr>,
                             tr' @ [EvOperationsAsyncClient ch (Inr c)])"
        by (rule grows_trans)
      with g None Inr \<open>r = Inr ch\<close> show ?thesis by (simp add: operations_client_miss)
    qed
  qed
qed

text \<open>Each RPC property is the shared body at its own row of \<open>rpc_wire\<close>.\<close>

lemma wire_export_assets:
  "map_of rpc_wire ''export_assets'' =
     Some (''/google.cloud.asset.v1.AssetService/ExportAssets'',
           Serialize ExportAssetsRequest, FromString Operation)"
  by (simp add: rpc_wire_def)

lemma wire_batch_get_assets_history:
  "map_of rpc_wire ''batch_get_assets_history'' =
     Some (''/google.cloud.asset.v1.AssetService/BatchGetAssetsHistory'',
           Serialize BatchGetAssetsHistoryRequest, Deserialize BatchGetAssetsHistoryResponse)"
  by (simp add: rpc_wire_def)

lemma wire_create_feed:
  "map_of rpc_wire ''create_feed'' =
     Some (''/google.cloud.asset.v1.AssetService/CreateFeed'',
           Serialize CreateFeedRequest, Deserialize Feed)"
  by (simp add: rpc_wire_def)

lemma wire_get_feed:
  "map_of rpc_wire ''get_feed'' =
     Some (''/google.cloud.asset.v1.AssetService/GetFeed'',
           Serialize GetFeedRequest, Deserialize Feed)"
  by (simp add: rpc_wire_def)

lemma wire_list_feeds:
  "map_of rpc_wire ''list_feeds'' =
     Some (''/google.cloud.asset.v1.AssetService/ListFeeds'',
           Serialize ListFeedsRequest, Deserialize ListFeedsResponse)"
  by (simp add: rpc_wire_def)

lemma wire_update_feed:
  "map_of rpc_wire ''update_feed'' =
     Some (''/google.cloud.asset.v1.AssetService/UpdateFeed'',
           Serialize UpdateFeedRequest, Deserialize Feed)"
  by (simp add: rpc_wire_def)

lemma wire_delete_feed:
  "map_of rpc_wire ''delete_feed'' =
     Some (''/google.cloud.asset.v1.AssetService/DeleteFeed'',
           Serialize DeleteFeedRequest, FromString Empty)"
  by (simp add: rpc_wire_def)

lemma wire_search_all_resources:
  "map_of rpc_wire ''search_all_resources'' =
     Some (''/google.cloud.asset.v1.AssetService/SearchAllResources'',
           Serialize SearchAllResourcesRequest, Deserialize SearchAllResourcesResponse)"
  by (simp add: rpc_wire_def)

lemma wire_search_all_iam_policies:
  "map_of rpc_wire ''search_all_iam_policies'' =
     Some (''/google.cloud.asset.v1.AssetService/SearchAllIamPolicies'',
           Serialize SearchAllIamPoliciesRequest, Deserialize SearchAllIamPoliciesResponse)"
  by (simp add: rpc_wire_def)

lemma rpc_properties_cases:
  assumes "(name, prop) \<in> set rpc_properties"
  shows "(name = ''export_assets'' \<and> prop = export_assets) \<or>
         (name = ''batch_get_assets_history'' \<and> prop = batch_get_assets_history) \<or>
         (name = ''create_feed'' \<and> prop = create_feed) \<or>
         (name = ''get_feed'' \<and> prop = get_feed) \<or>
         (name = ''list_feeds'' \<and> prop = list_feeds) \<or>
         (name = ''update_feed'' \<and> prop = update_feed) \<or>
         (name = ''delete_feed'' \<and> prop = delete_feed) \<or>
         (name = ''search_all_resources'' \<and> prop = search_all_resources) \<or>
         (name = ''search_all_iam_policies'' \<and> prop = search_all_iam_policies)"
  using assms unfolding rpc_properties_def by simp

lemma rpc_properties_wire:
  assumes "(name, prop) \<in> set rpc_properties"
  shows "\<exists>path ser deser. map_of rpc_wire name = Some (path, ser, deser) \<and>
                         prop = stub_property name path ser deser"
  using rpc_properties_cases [OF assms]
proof (elim disjE conjE)
  assume "name = ''export_assets''" "prop = export_assets"
  then show ?thesis by (simp add: wire_export_assets export_assets_def)
next
  assume "name = ''batch_get_assets_history''" "prop = batch_get_assets_history"
  then show ?thesis by (simp add: wire_batch_get_assets_history batch_get_assets_history_def)
next
  assume "name = ''create_feed''" "prop = create_feed"
  then show ?thesis by (simp add: wire_create_feed create_feed_def)
next
  assume "name = ''get_feed''" "prop = get_feed"
  then show ?thesis by (simp add: wire_get_feed get_feed_def)
next
  assume "name = ''list_feeds''" "prop = list_feeds"
  then show ?thesis by (simp add: wire_list_feeds list_feeds_def)
next
  assume "name = ''update_feed''" "prop = update_feed"
  then show ?thesis by (simp add: wire_update_feed update_feed_def)
next
  assume "name = ''delete_feed''" "prop = delete_feed"
  then show ?thesis by (simp add: wire_delete_feed delete_feed_def)
next
  assume "name = ''search_all_resources''" "prop = search_all_resources"
  then show ?thesis by (simp add: wire_search_all_resources search_all_resources_def)
next
  assume "name = ''search_all_iam_policies''" "prop = search_all_iam_policies"
  then show ?thesis by (simp add: wire_search_all_iam_policies search_all_iam_policies_def)
qed

lemma map_of_rpc_properties:
  "map_of rpc_properties name = Some prop \<Longrightarrow> (name, prop) \<in> set rpc_properties"
  by (rule map_of_SomeD)

lemma access_step_grows: "grows s (access_step env acc s)"
proof (cases acc)
  case AccGrpcChannel
  then show ?thesis by (simp add: access_step_def grpc_channel_grows)
next
  case AccOperationsClient
  then show ?thesis by (simp add: access_step_def operations_client_grows)
next
  case (AccRpc name)
  show ?thesis
  proof (cases "map_of rpc_properties name")
    case None
    with AccRpc show ?thesis by (simp add: access_step_def grows_refl)
  next
    case (Some p)
    then obtain path ser deser where "p = stub_property name path ser deser"
      using rpc_properties_wire map_of_rpc_properties by blast
    with AccRpc Some show ?thesis by (simp add: access_step_def stub_property_grows)
  qed
qed

lemma run_grows: "grows s (run env accs s)"
proof (induction accs arbitrary: s)
  case Nil
  show ?case by (simp add: grows_refl)
next
  case (Cons acc accs)
  have "grows s (access_step env acc s)" by (rule access_step_grows)
  moreover have "grows (access_step env acc s) (run env accs (access_step env acc s))"
    by (rule Cons.IH)
  ultimately show ?case by (simp add: grows_trans)
qed

subsection \<open>Sample runs\<close>

lemmas demo_eval =
  stub_property_def grpc_channel_def create_channel_def operations_client_def
  access_step_def rpc_properties_def demo_env_def failing_env_def demo_transport_def
  demo_history_def demo_args_def scopes_or_def truthy_str_def init_def super_init_def
  make_ssl_credentials_def Let_def

lemma demo_constructed:
  "init demo_env demo_args [] = (Inr demo_transport, demo_history)"
  by (simp add: demo_eval)

subsection \<open>Where the stubs come from\<close>









lemma super_init_stubs:
  "super_init env a host credentials chan tr = (Inr t, tr') \<Longrightarrow>
     self_stubs t = Map.empty \<and> self_grpc_channel t = chan \<and> self_operations_client t = None"
  by (auto simp: super_init_def Let_def split: sum.splits)








subsection \<open>One stub per method name\<close>



subsection \<open>The operations client is made once\<close>

text \<open>
  Claim C7. When the instance holds no operations client, an access that returns
  client \<open>c\<close> has read the \<open>grpc_channel\<close> property, obtained \<open>c\<close> from
  \<open>operations_v1.OperationsAsyncClient\<close> on that channel, and stored it on the instance.
  Whenever an access returns \<open>c\<close>, the instance holds \<open>c\<close> afterwards and, whatever
  clients do next, every later access returns \<open>c\<close> again and changes nothing, so no
  other client is created.
\<close>

theorem operations_client_cached:
  "(self_operations_client (fst s) = None \<and> operations_client env s = (Inr c, s1) \<longrightarrow>
      (\<exists>ch t' tr'.
         grpc_channel env s = (Inr ch, (t', tr')) \<and>
         OperationsAsyncClient env tr' ch = Inr c \<and>
         s1 = (t'\<lparr>self_operations_client := Some c\<rparr>,
               tr' @ [EvOperationsAsyncClient ch (Inr c)]))) \<and>
   (operations_client env s = (Inr c, s1) \<longrightarrow>
      self_operations_client (fst s1) = Some c \<and>
      operations_client env (run env accs s1) = (Inr c, run env accs s1))"
proof (intro conjI impI)
  assume a: "self_operations_client (fst s) = None \<and> operations_client env s = (Inr c, s1)"
  obtain r t' tr' where g: "grpc_channel env s = (r, (t', tr'))" by (metis prod.exhaust)
  from a g show "\<exists>ch t' tr'.
         grpc_channel env s = (Inr ch, (t', tr')) \<and>
         OperationsAsyncClient env tr' ch = Inr c \<and>
         s1 = (t'\<lparr>self_operations_client := Some c\<rparr>,
               tr' @ [EvOperationsAsyncClient ch (Inr c)])"
    by (auto simp: operations_client_miss split: sum.splits)
next
  assume a: "operations_client env s = (Inr c, s1)"
  show stored: "self_operations_client (fst s1) = Some c"
  proof (cases "self_operations_client (fst s)")
    case (Some x)
    with a show ?thesis by (simp add: operations_client_hit)
  next
    case None
    obtain r t' tr' where g: "grpc_channel env s = (r, (t', tr'))" by (metis prod.exhaust)
    from a None g show ?thesis
      by (auto simp: operations_client_miss split: sum.splits)
  qed
  have "grows s1 (run env accs s1)" by (rule run_grows)
  with stored have "self_operations_client (fst (run env accs s1)) = Some c"
    by (simp add: grows_def)
  then show "operations_client env (run env accs s1) = (Inr c, run env accs s1)"
    by (rule operations_client_hit)
qed

theorem operations_client_cached_witness:
  "self_operations_client (fst (demo_transport, demo_history)) = None \<and>
   fst (operations_client demo_env (demo_transport, demo_history)) = Inr (OpsClient 2) \<and>
   (\<exists>ch t' tr'.
      grpc_channel demo_env (demo_transport, demo_history) = (Inr ch, (t', tr')) \<and>
      OperationsAsyncClient demo_env tr' ch = Inr (OpsClient 2) \<and>
      snd (operations_client demo_env (demo_transport, demo_history)) =
        (t'\<lparr>self_operations_client := Some (OpsClient 2)\<rparr>,
         tr' @ [EvOperationsAsyncClient ch (Inr (OpsClient 2))])) \<and>
   self_operations_client (fst (snd (operations_client demo_env (demo_transport, demo_history))))
     = Some (OpsClient 2) \<and>
   operations_client demo_env
     (run demo_env [AccRpc ''list_feeds'']
        (snd (operations_client demo_env (demo_transport, demo_history)))) =
     (Inr (OpsClient 2),
      run demo_env [AccRpc ''list_feeds'']
        (snd (operations_client demo_env (demo_transport, demo_history))))"
proof -
  let ?s = "(demo_transport, demo_history)"
  let ?s1 = "snd (operations_client demo_env ?s)"
  have n: "self_operations_client (fst ?s) = None" by (simp add: demo_transport_def)
  have e: "fst (operations_client demo_env ?s) = Inr (OpsClient 2)"
    by (simp add: demo_eval)
  then have r: "operations_client demo_env ?s = (Inr (OpsClient 2), ?s1)"
    by (metis prod.collapse)
  from operations_client_cached
         [of ?s demo_env "OpsClient 2" ?s1 "[AccRpc ''list_feeds'']"] n e r
  show ?thesis by simp
qed

subsection \<open>The channel is made at most once\<close>

lemma filter_drop_single:
  "filter P (drop k [ev]) = (if k = 0 \<and> P ev then [ev] else [])"
  by (cases k) simp_all

lemma one_channel_frame:
  assumes "one_channel n (t, tr)" "self_grpc_channel t' = self_grpc_channel t"
    "\<not> channel_created ev"
  shows "one_channel n (t', tr @ [ev])"
  using assms by (simp add: one_channel_def filter_drop_single)

lemma one_channel_grpc_channel:
  assumes "one_channel n s"
  shows "one_channel n (snd (grpc_channel env s))"
proof (cases s)
  case (Pair t tr)
  show ?thesis
  proof (cases "self_grpc_channel t")
    case (Some ch)
    with Pair assms show ?thesis by (simp add: grpc_channel_hit)
  next
    case None
    from grpc_channel_miss [OF None, of env tr] obtain ha r where
      g: "grpc_channel env (t, tr) =
         (r, (case r of Inl e \<Rightarrow> t | Inr ch \<Rightarrow> t\<lparr>self_grpc_channel := Some ch\<rparr>),
             tr @ [EvHelperCreateChannel ha r])" by blast
    from assms Pair None have z: "filter channel_created (drop n tr) = []"
      by (simp add: one_channel_def)
    show ?thesis
    proof (cases r)
      case (Inl e)
      with g Pair None z show ?thesis by (simp add: one_channel_def filter_drop_single)
    next
      case (Inr ch)
      with g Pair z show ?thesis by (simp add: one_channel_def filter_drop_single)
    qed
  qed
qed

lemma one_channel_operations_client:
  assumes "one_channel n s"
  shows "one_channel n (snd (operations_client env s))"
proof (cases "self_operations_client (fst s)")
  case (Some c)
  with assms show ?thesis by (simp add: operations_client_hit)
next
  case None
  obtain r t' tr' where g: "grpc_channel env s = (r, (t', tr'))" by (metis prod.exhaust)
  have b: "one_channel n (t', tr')" using one_channel_grpc_channel [OF assms, of env] g by simp
  show ?thesis
  proof (cases r)
    case (Inl e)
    with g b None show ?thesis by (simp add: operations_client_miss)
  next
    case (Inr ch)
    show ?thesis
    proof (cases "OperationsAsyncClient env tr' ch")
      case (Inl e)
      have "one_channel n (t', tr' @ [EvOperationsAsyncClient ch (Inl e)])"
        by (rule one_channel_frame [OF b]) simp_all
      with g None Inl \<open>r = Inr ch\<close> show ?thesis by (simp add: operations_client_miss)
    next
      case (Inr c)
      have "one_channel n (t'\<lparr>self_operations_client := Some c\<rparr>,
                         tr' @ [EvOperationsAsyncClient ch (Inr c)])"
        by (rule one_channel_frame [OF b]) simp_all
      with g None Inr \<open>r = Inr ch\<close> show ?thesis by (simp add: operations_client_miss)
    qed
  qed
qed

lemma one_channel_stub_property:
  assumes "one_channel n s"
  shows "one_channel n (snd (stub_property name path ser deser env s))"
proof (cases "self_stubs (fst s) name")
  case (Some st)
  with assms show ?thesis by (simp add: stub_property_hit)
next
  case None
  obtain r t' tr' where g: "grpc_channel env s = (r, (t', tr'))" by (metis prod.exhaust)
  have b: "one_channel n (t', tr')" using one_channel_grpc_channel [OF assms, of env] g by simp
  show ?thesis
  proof (cases r)
    case (Inl e)
    with g b None show ?thesis by (simp add: stub_property_miss)
  next
    case (Inr ch)
    show ?thesis
    proof (cases "unary_unary env tr' ch path ser deser")
      case (Inl e)
      have "one_channel n (t', tr' @ [EvUnaryUnary ch path ser deser (Inl e)])"
        by (rule one_channel_frame [OF b]) simp_all
      with g None Inl \<open>r = Inr ch\<close> show ?thesis by (simp add: stub_property_miss)
    next
      case (Inr st)
      have "one_channel n (t'\<lparr>self_stubs := (self_stubs t')(name \<mapsto> st)\<rparr>,
                         tr' @ [EvUnaryUnary ch path ser deser (Inr st)])"
        by (rule one_channel_frame [OF b]) simp_all
      with g None Inr \<open>r = Inr ch\<close> show ?thesis by (simp add: stub_property_miss)
    qed
  qed
qed

lemma one_channel_access_step:
  assumes "one_channel n s"
  shows "one_channel n (access_step env acc s)"
proof (cases acc)
  case AccGrpcChannel
  with assms show ?thesis by (simp add: access_step_def one_channel_grpc_channel)
next
  case AccOperationsClient
  with assms show ?thesis by (simp add: access_step_def one_channel_operations_client)
next
  case (AccRpc name)
  show ?thesis
  proof (cases "map_of rpc_properties name")
    case None
    with AccRpc assms show ?thesis by (simp add: access_step_def)
  next
    case (Some p)
    then obtain path ser deser where "p = stub_property name path ser deser"
      using rpc_properties_wire map_of_rpc_properties by blast
    with AccRpc Some assms show ?thesis
      by (simp add: access_step_def one_channel_stub_property)
  qed
qed

lemma one_channel_run: "one_channel n s \<Longrightarrow> one_channel n (run env accs s)"
  by (induction accs arbitrary: s) (simp_all add: one_channel_access_step)

lemma super_init_trace:
  "super_init env a host credentials chan tr = (r, tr') \<Longrightarrow> \<exists>ba rb. tr' = tr @ [EvBaseInit ba rb]"
  by (auto simp: super_init_def Let_def split: sum.splits)

lemma make_ssl_credentials_trace:
  "make_ssl_credentials env src tr = (r, tr') \<Longrightarrow>
     \<exists>new. tr' = tr @ new \<and> filter channel_created new = []"
  by (auto simp: make_ssl_credentials_def Let_def split: option.splits sum.splits prod.splits)

lemma one_channel_init:
  assumes "init env a tr0 = (Inr t, tr1)"
  shows "one_channel (length tr0) (t, tr1)"
proof (cases "ia_channel a")
  case (Some ch)
  with assms have s: "super_init env a (ia_host a) CredFalse (Some ch) tr0 = (Inr t, tr1)"
    by (simp add: init_def)
  from super_init_trace [OF s] super_init_stubs [OF s] show ?thesis
    by (auto simp: one_channel_def)
next
  case None
  show ?thesis
  proof (cases "truthy_str (ia_api_mtls_endpoint a)")
    case False
    with assms None
    have s: "super_init env a (ia_host a) (ia_credentials a) None tr0 = (Inr t, tr1)"
      by (simp add: init_def)
    from super_init_trace [OF s] super_init_stubs [OF s] show ?thesis
      by (auto simp: one_channel_def)
  next
    case True
    obtain rs trs where m: "make_ssl_credentials env (ia_client_cert_source a) tr0 = (rs, trs)"
      by (metis prod.exhaust)
    from make_ssl_credentials_trace [OF m] obtain new where
      new: "trs = tr0 @ new" "filter channel_created new = []" by blast
    from assms None True m obtain ssl ca host cr ch trc where
      c: "create_channel env ca trs = (Inr ch, trc)"
      and s: "super_init env a host cr (Some ch) trc = (Inr t, tr1)"
      by (auto simp: init_def Let_def split: sum.splits prod.splits)
    from create_channel_trace [OF c] obtain ha where
      trc: "trc = trs @ [EvHelperCreateChannel ha (Inr ch)]" by blast
    from super_init_trace [OF s] obtain ba rb where
      tr1: "tr1 = trc @ [EvBaseInit ba rb]" by blast
    from new trc tr1 super_init_stubs [OF s] show ?thesis
      by (simp add: one_channel_def)
  qed
qed

text \<open>
  Claim C3. An instance that already holds a channel (from the constructor or from an
  earlier access) gets that channel back from \<open>grpc_channel\<close>, unchanged; once an
  access has returned a channel, the instance holds it and, whatever clients do next,
  every later access returns the same channel and changes nothing (two accesses in a row
  are the case of no accesses in between); and on an instance that a constructor call
  returned, the constructor and all later accesses together obtain at most one channel
  from the helper.
\<close>

theorem grpc_channel_idempotent:
  "(self_grpc_channel (fst s) = Some ch \<longrightarrow> grpc_channel env s = (Inr ch, s)) \<and>
   (grpc_channel env s = (Inr ch, s1) \<longrightarrow>
      self_grpc_channel (fst s1) = Some ch \<and>
      grpc_channel env (run env accs s1) = (Inr ch, run env accs s1)) \<and>
   (init env a tr0 = (Inr t0, tr1) \<longrightarrow>
      length (filter channel_created
                (drop (length tr0) (snd (run env accs (t0, tr1))))) \<le> 1)"
proof (intro conjI impI)
  assume "self_grpc_channel (fst s) = Some ch"
  then show "grpc_channel env s = (Inr ch, s)" by (rule grpc_channel_hit)
next
  assume a: "grpc_channel env s = (Inr ch, s1)"
  then show stored: "self_grpc_channel (fst s1) = Some ch" by (rule grpc_channel_stores)
  have "grows s1 (run env accs s1)" by (rule run_grows)
  with stored have "self_grpc_channel (fst (run env accs s1)) = Some ch"
    by (simp add: grows_def)
  then show "grpc_channel env (run env accs s1) = (Inr ch, run env accs s1)"
    by (rule grpc_channel_hit)
next
  assume "init env a tr0 = (Inr t0, tr1)"
  then have "one_channel (length tr0) (t0, tr1)" by (rule one_channel_init)
  then have "one_channel (length tr0) (run env accs (t0, tr1))" by (rule one_channel_run)
  then show "length (filter channel_created
                (drop (length tr0) (snd (run env accs (t0, tr1))))) \<le> 1"
    by (simp add: one_channel_def)
qed

theorem grpc_channel_idempotent_witness:
  "fst (grpc_channel demo_env (demo_transport, demo_history)) = Inr (Channel 1) \<and>
   self_grpc_channel (fst (snd (grpc_channel demo_env (demo_transport, demo_history))))
     = Some (Channel 1) \<and>
   grpc_channel demo_env
     (run demo_env [AccRpc ''get_feed'']
        (snd (grpc_channel demo_env (demo_transport, demo_history)))) =
     (Inr (Channel 1),
      run demo_env [AccRpc ''get_feed'']
        (snd (grpc_channel demo_env (demo_transport, demo_history)))) \<and>
   grpc_channel demo_env (snd (grpc_channel demo_env (demo_transport, demo_history))) =
     (Inr (Channel 1), snd (grpc_channel demo_env (demo_transport, demo_history))) \<and>
   init demo_env demo_args [] = (Inr demo_transport, demo_history) \<and>
   length (filter channel_created
     (drop (length ([] :: event list))
        (snd (run demo_env [AccGrpcChannel, AccOperationsClient, AccGrpcChannel]
                (demo_transport, demo_history))))) \<le> 1"
proof -
  let ?s = "(demo_transport, demo_history)"
  let ?s1 = "snd (grpc_channel demo_env ?s)"
  have e: "fst (grpc_channel demo_env ?s) = Inr (Channel 1)"
    by (simp add: demo_eval)
  then have r: "grpc_channel demo_env ?s = (Inr (Channel 1), ?s1)"
    by (metis prod.collapse)
  have i: "init demo_env demo_args [] = (Inr demo_transport, demo_history)"
    by (rule demo_constructed)
  from grpc_channel_idempotent
         [of ?s "Channel 1" demo_env ?s1 "[AccRpc ''get_feed'']" demo_args "[]"
             demo_transport demo_history]
  have a: "self_grpc_channel (fst ?s1) = Some (Channel 1)"
    "grpc_channel demo_env (run demo_env [AccRpc ''get_feed''] ?s1) =
       (Inr (Channel 1), run demo_env [AccRpc ''get_feed''] ?s1)"
    using r by simp_all
  from grpc_channel_idempotent
         [of ?s1 "Channel 1" demo_env ?s1
             "[AccGrpcChannel, AccOperationsClient, AccGrpcChannel]" demo_args "[]"
             demo_transport demo_history]
  have b: "grpc_channel demo_env ?s1 = (Inr (Channel 1), ?s1)"
    "length (filter channel_created
     (drop (length ([] :: event list))
        (snd (run demo_env [AccGrpcChannel, AccOperationsClient, AccGrpcChannel]
                (demo_transport, demo_history))))) \<le> 1"
    using a(1) i by simp_all
  from e a b i show ?thesis by blast
qed

subsection \<open>Errors of the libraries surface unchanged\<close>

lemma raised_append: "raised (xs @ ys) = raised xs @ raised ys"
  by (simp add: raised_def map_filter_def)

lemma raised_single:
  "raised [ev] = (case event_error ev of None \<Rightarrow> [] | Some e \<Rightarrow> [e])"
  by (simp add: raised_def map_filter_def split: option.splits)

lemma surfaces_iff:
  "surfaces tr r tr' \<longleftrightarrow>
     (\<exists>new. tr' = tr @ new \<and>
        (case r of
           Inl e \<Rightarrow> raised new = [e] \<and> new \<noteq> [] \<and> event_error (last new) = Some e
         | Inr v \<Rightarrow> raised new = []))"
proof
  assume a: "surfaces tr r tr'"
  then have "tr' = tr @ drop (length tr) tr'"
    unfolding surfaces_def by (metis append_take_drop_id)
  with a show "\<exists>new. tr' = tr @ new \<and>
        (case r of
           Inl e \<Rightarrow> raised new = [e] \<and> new \<noteq> [] \<and> event_error (last new) = Some e
         | Inr v \<Rightarrow> raised new = [])"
    unfolding surfaces_def Let_def by blast
next
  assume "\<exists>new. tr' = tr @ new \<and>
        (case r of
           Inl e \<Rightarrow> raised new = [e] \<and> new \<noteq> [] \<and> event_error (last new) = Some e
         | Inr v \<Rightarrow> raised new = [])"
  then show "surfaces tr r tr'"
    unfolding surfaces_def Let_def by (cases r) auto
qed

lemma surfaces_refl: "surfaces tr (Inr v) tr"
  by (simp add: surfaces_def raised_def map_filter_def)

lemma surfaces_call:
  assumes "event_error ev = outcome_error r"
  shows "surfaces tr r (tr @ [ev])"
  using assms
  by (cases r) (simp_all add: surfaces_def raised_single outcome_error_def)

lemma surfaces_Inl: "surfaces tr (Inl e :: exn + 'a) tr' \<Longrightarrow> surfaces tr (Inl e :: exn + 'b) tr'"
  by (simp add: surfaces_def)

lemma surfaces_Inr: "surfaces tr (Inr v :: exn + 'a) tr' \<Longrightarrow> surfaces tr (Inr w :: exn + 'b) tr'"
  by (simp add: surfaces_def)

lemma surfaces_then:
  assumes "surfaces tr (Inr v) tr1" "surfaces tr1 r tr2"
  shows "surfaces tr r tr2"
proof -
  from assms(1) obtain n1 where n1: "tr1 = tr @ n1" "raised n1 = []"
    unfolding surfaces_iff by auto
  from assms(2) obtain n2 where n2: "tr2 = tr1 @ n2"
    "case r of Inl e \<Rightarrow> raised n2 = [e] \<and> n2 \<noteq> [] \<and> event_error (last n2) = Some e
             | Inr v \<Rightarrow> raised n2 = []"
    unfolding surfaces_iff by auto
  have "tr2 = tr @ (n1 @ n2)" using n1 n2 by simp
  moreover have "case r of
       Inl e \<Rightarrow> raised (n1 @ n2) = [e] \<and> n1 @ n2 \<noteq> [] \<and> event_error (last (n1 @ n2)) = Some e
     | Inr v \<Rightarrow> raised (n1 @ n2) = []"
    using n1 n2 by (cases r) (simp_all add: raised_append)
  ultimately show ?thesis unfolding surfaces_iff by blast
qed

lemma surfaces_create_channel:
  "surfaces tr (fst (create_channel env ca tr)) (snd (create_channel env ca tr))"
  by (simp add: create_channel_def Let_def surfaces_call)

lemma surfaces_super_init:
  "surfaces tr (fst (super_init env a host credentials chan tr))
               (snd (super_init env a host credentials chan tr))"
proof -
  obtain ba where ba: "ba = \<lparr> ba_host = host,
                 ba_credentials = credentials,
                 ba_credentials_file = ia_credentials_file a,
                 ba_scopes = scopes_or (ia_scopes a) (AUTH_SCOPES env),
                 ba_quota_project_id = ia_quota_project_id a \<rparr>" by simp
  have c: "surfaces tr (base_init env tr ba) (tr @ [EvBaseInit ba (base_init env tr ba)])"
    by (rule surfaces_call) simp
  show ?thesis
  proof (cases "base_init env tr ba")
    case (Inl e)
    with c have "surfaces tr (Inl e :: exn + transport) (tr @ [EvBaseInit ba (Inl e)])"
      by (simp add: surfaces_def)
    with Inl ba show ?thesis by (simp add: super_init_def Let_def)
  next
    case (Inr bf)
    with c have "surfaces tr (Inr bf) (tr @ [EvBaseInit ba (Inr bf)])" by simp
    then have "surfaces tr (Inr (\<lparr> self_host = bf_host bf,
                    self_credentials = bf_credentials bf,
                    self_grpc_channel = chan,
                    self_operations_client = None,
                    self_stubs = Map.empty \<rparr>)) (tr @ [EvBaseInit ba (Inr bf)])"
      by (rule surfaces_Inr)
    with Inr ba show ?thesis by (simp add: super_init_def Let_def)
  qed
qed

lemma surfaces_make_ssl_credentials:
  "surfaces tr (fst (make_ssl_credentials env src tr)) (snd (make_ssl_credentials env src tr))"
proof (cases src)
  case None
  then show ?thesis by (simp add: make_ssl_credentials_def Let_def surfaces_call)
next
  case (Some f)
  have c: "surfaces tr (client_cert_source_call env tr f)
             (tr @ [EvClientCertSource f (client_cert_source_call env tr f)])"
    by (rule surfaces_call) simp
  show ?thesis
  proof (cases "client_cert_source_call env tr f")
    case (Inl e)
    with c have "surfaces tr (Inl e :: exn + ssl_credentials) (tr @ [EvClientCertSource f (Inl e)])"
      by (simp add: surfaces_def)
    with Inl Some show ?thesis by (simp add: make_ssl_credentials_def Let_def)
  next
    case (Inr ck)
    obtain cert key where ck: "ck = (cert, key)" by (cases ck)
    let ?tr1 = "tr @ [EvClientCertSource f (Inr (cert, key))]"
    from c Inr ck have 1: "surfaces tr (Inr (cert, key)) ?tr1" by simp
    have 2: "surfaces ?tr1 (ssl_channel_credentials env ?tr1 cert key)
               (?tr1 @ [EvSslChannelCredentials cert key (ssl_channel_credentials env ?tr1 cert key)])"
      by (rule surfaces_call) simp
    from surfaces_then [OF 1 2] Inr ck Some show ?thesis
      by (simp add: make_ssl_credentials_def Let_def)
  qed
qed

lemma surfaces_init: "surfaces tr (fst (init env a tr)) (snd (init env a tr))"
proof (cases "ia_channel a")
  case (Some ch)
  then show ?thesis by (simp add: init_def surfaces_super_init)
next
  case None
  show ?thesis
  proof (cases "truthy_str (ia_api_mtls_endpoint a)")
    case False
    with None show ?thesis by (simp add: init_def surfaces_super_init)
  next
    case True
    obtain rs tr1 where m: "make_ssl_credentials env (ia_client_cert_source a) tr = (rs, tr1)"
      by (metis prod.exhaust)
    have 1: "surfaces tr rs tr1" using surfaces_make_ssl_credentials [of tr env "ia_client_cert_source a"] m
      by simp
    show ?thesis
    proof (cases rs)
      case (Inl e)
      with 1 have "surfaces tr (Inl e :: exn + transport) tr1" by (simp add: surfaces_def)
      with Inl None True m show ?thesis by (simp add: init_def Let_def)
    next
      case (Inr ssl)
      let ?host = "if CHR '':'' \<in> set (the (ia_api_mtls_endpoint a))
                   then the (ia_api_mtls_endpoint a) else the (ia_api_mtls_endpoint a) @ '':443''"
      let ?ca = "\<lparr> ca_host = ?host,
                              ca_credentials = ia_credentials a,
                              ca_credentials_file = ia_credentials_file a,
                              ca_scopes = Some (scopes_or (ia_scopes a) (AUTH_SCOPES env)),
                              ca_quota_project_id = ia_quota_project_id a,
                              ca_kwargs = [(''ssl_credentials'', PySslCredentials ssl)] \<rparr>"
      obtain rc tr2 where c: "create_channel env ?ca tr1 = (rc, tr2)" by (metis prod.exhaust)
      have 2: "surfaces tr1 rc tr2" using surfaces_create_channel [of tr1 env ?ca] c by simp
      from 1 Inr have one: "surfaces tr (Inr ssl) tr1" by simp
      show ?thesis
      proof (cases rc)
        case (Inl e)
        from surfaces_then [OF one 2] Inl have "surfaces tr (Inl e :: exn + transport) tr2"
          by (simp add: surfaces_def)
        with Inl \<open>rs = Inr ssl\<close> None True m c show ?thesis by (simp add: init_def Let_def)
      next
        case (Inr ch)
        from surfaces_then [OF one 2] Inr have 12: "surfaces tr (Inr ch) tr2" by simp
        have 3: "surfaces tr2 (fst (super_init env a ?host (ia_credentials a) (Some ch) tr2))
                   (snd (super_init env a ?host (ia_credentials a) (Some ch) tr2))"
          by (rule surfaces_super_init)
        from surfaces_then [OF 12 3] Inr \<open>rs = Inr ssl\<close> None True m c show ?thesis
          by (simp add: init_def Let_def)
      qed
    qed
  qed
qed

lemma surfaces_grpc_channel:
  "surfaces (snd s) (fst (grpc_channel env s)) (snd (snd (grpc_channel env s)))"
proof (cases s)
  case (Pair t tr)
  show ?thesis
  proof (cases "self_grpc_channel t")
    case (Some ch)
    with Pair show ?thesis by (simp add: grpc_channel_hit surfaces_refl)
  next
    case None
    from grpc_channel_miss [OF None, of env tr] obtain ha r where
      "grpc_channel env (t, tr) =
         (r, (case r of Inl e \<Rightarrow> t | Inr ch \<Rightarrow> t\<lparr>self_grpc_channel := Some ch\<rparr>),
             tr @ [EvHelperCreateChannel ha r])" by blast
    with Pair show ?thesis by (simp add: surfaces_call)
  qed
qed

lemma surfaces_operations_client:
  "surfaces (snd s) (fst (operations_client env s)) (snd (snd (operations_client env s)))"
proof (cases "self_operations_client (fst s)")
  case (Some c)
  then show ?thesis by (simp add: operations_client_hit surfaces_refl)
next
  case None
  obtain r t' tr' where g: "grpc_channel env s = (r, (t', tr'))" by (metis prod.exhaust)
  have 1: "surfaces (snd s) r tr'" using surfaces_grpc_channel [of s env] g by simp
  show ?thesis
  proof (cases r)
    case (Inl e)
    with 1 have "surfaces (snd s) (Inl e :: exn + ops_client) tr'" by (simp add: surfaces_def)
    with Inl g None show ?thesis by (simp add: operations_client_miss)
  next
    case (Inr ch)
    with 1 have one: "surfaces (snd s) (Inr ch) tr'" by simp
    have 2: "surfaces tr' (OperationsAsyncClient env tr' ch)
               (tr' @ [EvOperationsAsyncClient ch (OperationsAsyncClient env tr' ch)])"
      by (rule surfaces_call) simp
    from surfaces_then [OF one 2] Inr g None show ?thesis
      by (cases "OperationsAsyncClient env tr' ch") (simp_all add: operations_client_miss)
  qed
qed

lemma surfaces_stub_property:
  "surfaces (snd s) (fst (stub_property name path ser deser env s))
     (snd (snd (stub_property name path ser deser env s)))"
proof (cases "self_stubs (fst s) name")
  case (Some st)
  then show ?thesis by (simp add: stub_property_hit surfaces_refl)
next
  case None
  obtain r t' tr' where g: "grpc_channel env s = (r, (t', tr'))" by (metis prod.exhaust)
  have 1: "surfaces (snd s) r tr'" using surfaces_grpc_channel [of s env] g by simp
  show ?thesis
  proof (cases r)
    case (Inl e)
    with 1 have "surfaces (snd s) (Inl e :: exn + stub) tr'" by (simp add: surfaces_def)
    with Inl g None show ?thesis by (simp add: stub_property_miss)
  next
    case (Inr ch)
    with 1 have one: "surfaces (snd s) (Inr ch) tr'" by simp
    have 2: "surfaces tr' (unary_unary env tr' ch path ser deser)
               (tr' @ [EvUnaryUnary ch path ser deser (unary_unary env tr' ch path ser deser)])"
      by (rule surfaces_call) simp
    from surfaces_then [OF one 2] Inr g None show ?thesis
      by (cases "unary_unary env tr' ch path ser deser") (simp_all add: stub_property_miss)
  qed
qed

text \<open>
  Claim C6. For \<open>create_channel\<close>, the constructor, \<open>grpc_channel\<close>, \<open>operations_client\<close>
  and every RPC property: the operation raises \<open>e\<close> exactly when one of its library
  calls raised, that call raised \<open>e\<close>, and it was the operation's last call (nothing is
  caught, retried or wrapped); and it returns exactly when none of its library calls
  raised. The transport raises nothing of its own.
\<close>

theorem errors_surface_unchanged:
  "surfaces tr (fst (create_channel env ca tr)) (snd (create_channel env ca tr)) \<and>
   surfaces tr (fst (init env ia tr)) (snd (init env ia tr)) \<and>
   surfaces (snd s) (fst (grpc_channel env s)) (snd (snd (grpc_channel env s))) \<and>
   surfaces (snd s) (fst (operations_client env s)) (snd (snd (operations_client env s))) \<and>
   (\<forall>(name, p) \<in> set rpc_properties.
      surfaces (snd s) (fst (p env s)) (snd (snd (p env s))))"
proof (intro conjI ballI)
  fix x assume x: "x \<in> set rpc_properties"
  obtain name p where np: "x = (name, p)" by (cases x)
  with x obtain path ser deser where "p = stub_property name path ser deser"
    using rpc_properties_wire by blast
  with np show "case x of (name, p) \<Rightarrow> surfaces (snd s) (fst (p env s)) (snd (snd (p env s)))"
    by (simp add: surfaces_stub_property)
qed (rule surfaces_create_channel surfaces_init surfaces_grpc_channel
       surfaces_operations_client)+

text \<open>
  With a channel whose \<open>unary_unary\<close> raises \<open>UNAVAILABLE\<close>, reading \<open>export_assets\<close>
  raises \<open>UNAVAILABLE\<close>, and that is the only exception in the history of the access.
\<close>

theorem errors_surface_unchanged_witness:
  "(''export_assets'', export_assets) \<in> set rpc_properties \<and>
   fst (export_assets failing_env (demo_transport, demo_history)) = Inl ''UNAVAILABLE'' \<and>
   raised (drop (length demo_history)
             (snd (snd (export_assets failing_env (demo_transport, demo_history)))))
     = [''UNAVAILABLE''] \<and>
   surfaces (snd (demo_transport, demo_history))
     (fst (export_assets failing_env (demo_transport, demo_history)))
     (snd (snd (export_assets failing_env (demo_transport, demo_history))))"
proof -
  have m: "(''export_assets'', export_assets) \<in> set rpc_properties"
    by (simp add: rpc_properties_def)
  have e: "fst (export_assets failing_env (demo_transport, demo_history)) = Inl ''UNAVAILABLE''"
    by (simp add: demo_eval export_assets_def)
  have f: "raised (drop (length demo_history)
             (snd (snd (export_assets failing_env (demo_transport, demo_history)))))
     = [''UNAVAILABLE'']"
    by (simp add: demo_eval export_assets_def raised_def map_filter_def outcome_error_def)
  from errors_surface_unchanged
         [of "[]" failing_env demo_chan_args demo_args "(demo_transport, demo_history)"]
  have "\<forall>(name, p) \<in> set rpc_properties.
          surfaces (snd (demo_transport, demo_history))
            (fst (p failing_env (demo_transport, demo_history)))
            (snd (snd (p failing_env (demo_transport, demo_history))))"
    by blast
  with m have "surfaces (snd (demo_transport, demo_history))
     (fst (export_assets failing_env (demo_transport, demo_history)))
     (snd (snd (export_assets failing_env (demo_transport, demo_history))))"
    by blast
  with m e f show ?thesis by blast
qed

subsection \<open>The constructor with a channel\<close>



subsection \<open>The constructor with neither channel nor endpoint\<close>



subsection \<open>The constructor with a mutual TLS endpoint\<close>










subsection \<open>The RPC methods of the class\<close>





end
